theory Spec2Isabelle
  imports Main "HOL-Library.Sublist"
begin

section \<open>Data model\<close>

text \<open>
  A search result is the dictionary built by \<open>extract_links_from_serpapi_json\<close>:
  it always has the three keys \<open>title\<close>, \<open>link\<close> and \<open>snippet\<close>, and each value is
  either Python's \<open>None\<close> (the provider's entry had no such key) or a string.
\<close>

record search_result =
  title :: "string option"
  link :: "string option"
  snippet :: "string option"

text \<open>Python truthiness of a value that is \<open>None\<close> or a string: only a non-empty string is true.\<close>

definition truthy :: "string option \<Rightarrow> bool" where
  "truthy v = (case v of None \<Rightarrow> False | Some s \<Rightarrow> s \<noteq> [])"

definition MAX_RESULTS :: nat where
  "MAX_RESULTS = 20"

section \<open>Deduplication by link (the loop of \<open>main\<close>)\<close>

text \<open>
  The first statement of the loop body, on the loop state \<open>(seen, dedup)\<close>:
  \<^verbatim>\<open>
    link = item.get("link")
    if link and link not in seen:
        seen.add(link)
        dedup.append(item)
  \<close>
\<close>

definition dedup_step ::
  "string set \<times> search_result list \<Rightarrow> search_result \<Rightarrow> string set \<times> search_result list" where
  "dedup_step st item =
     (case st of (seen, dedup) \<Rightarrow>
        (case link item of
           None \<Rightarrow> (seen, dedup)
         | Some l \<Rightarrow>
             if l \<noteq> [] \<and> l \<notin> seen then (insert l seen, dedup @ [item])
             else (seen, dedup)))"

text \<open>
  The loop itself: after the body's first statement, \<open>if len(dedup) >= MAX_RESULTS: break\<close>.
\<close>

fun dedup_loop ::
  "string set \<Rightarrow> search_result list \<Rightarrow> search_result list \<Rightarrow> search_result list" where
  "dedup_loop seen dedup [] = dedup"
| "dedup_loop seen dedup (item # rest) =
     (case dedup_step (seen, dedup) item of
        (seen', dedup') \<Rightarrow>
          if length dedup' \<ge> MAX_RESULTS then dedup'
          else dedup_loop seen' dedup' rest)"

text \<open>The aggregator: \<open>seen = set()\<close>, \<open>dedup = []\<close>, then the loop over \<open>aggregated\<close>.\<close>

definition deduplicate :: "search_result list \<Rightarrow> search_result list" where
  "deduplicate aggregated = dedup_loop {} [] aggregated"

text \<open>
  The same loop without the \<open>break\<close>: the cap-free deduplication that the capped one is
  compared with.
\<close>

fun dedup_unbounded ::
  "string set \<times> search_result list \<Rightarrow> search_result list \<Rightarrow> string set \<times> search_result list" where
  "dedup_unbounded st [] = st"
| "dedup_unbounded st (item # rest) = dedup_unbounded (dedup_step st item) rest"

text \<open>
  The specification's wording of the cap-free result: the entries whose link is non-empty
  and does not occur at an earlier position, in input order.
\<close>

definition first_occurrences :: "search_result list \<Rightarrow> search_result list" where
  "first_occurrences xs =
     map (\<lambda>i. xs ! i)
       (filter (\<lambda>i. truthy (link (xs ! i)) \<and> (\<forall>j < i. link (xs ! j) \<noteq> link (xs ! i)))
          [0 ..< length xs])"

text \<open>The set of non-empty links of a list of entries.\<close>

definition links_of :: "search_result list \<Rightarrow> string set" where
  "links_of xs = {l. l \<noteq> [] \<and> Some l \<in> set (map link xs)}"

section \<open>The outside world\<close>

text \<open>
  An exception object (an instance of Python's \<open>Exception\<close>), with its message.
\<close>

datatype exn = Exception string

text \<open>
  The decoded provider response as far as the program reads it: the \<open>organic_results\<close>
  array (\<open>None\<close> when the key is absent), each entry a dictionary from which
  \<open>e.get(key)\<close> reads a string or \<open>None\<close>.
\<close>

type_synonym organic_entry = "string \<rightharpoonup> string"

record serp_json =
  organic_results :: "organic_entry list option"

text \<open>The query parameters of the request (the dictionary \<open>params\<close>).\<close>

record params =
  p_engine :: string
  p_q :: string
  p_num :: nat
  p_google_domain :: string
  p_gl :: string
  p_hl :: string
  p_api_key :: string

text \<open>An HTTP response: its status code and what \<open>r.json()\<close> does.\<close>

record response =
  status_code :: nat
  json :: "exn + serp_json"

record email_message =
  msg_subject :: string
  msg_from :: string
  msg_to :: string
  msg_html :: string

text \<open>
  What the run reads from its surroundings: the configuration, the behaviour of the
  search provider and of the SMTP server, and the clock. For the SMTP session, each field
  is the exception that the step raises, or \<open>None\<close> when the step succeeds:
  \<open>smtp_connect\<close> for \<open>smtplib.SMTP(SMTP_HOST, SMTP_PORT)\<close>, \<open>smtp_starttls\<close> for
  \<open>s.starttls()\<close>, \<open>smtp_login\<close> for \<open>s.login(SMTP_USER, SMTP_PASS)\<close>, \<open>smtp_sendmail\<close> for
  \<open>s.sendmail(SENDER, RECIPIENT, msg.as_string())\<close>, and \<open>smtp_quit\<close> for leaving the
  \<open>with\<close> block, where the library sends \<open>QUIT\<close> and raises on a reply other than 221
  (a server that has already disconnected is not an error there).
\<close>

record env =
  SERPAPI_KEY :: "string option"
  SENDER :: string
  RECIPIENT :: string
  requests_get :: "params \<Rightarrow> exn + response"
  smtp_connect :: "exn option"
  smtp_starttls :: "exn option"
  smtp_login :: "exn option"
  smtp_sendmail :: "email_message \<Rightarrow> exn option"
  smtp_quit :: "exn option"
  now_strftime :: string
  today_isoformat :: string

text \<open>The lines the program prints.\<close>

datatype log_line =
    SerpAPI_error string exn
  | No_SERPAPI_KEY
  | Email_sent nat
  | Failed_to_send exn

text \<open>
  What the run does to its surroundings: the lines printed, the queries sent to the
  provider, the calls of \<open>send_email_html\<close>, and the messages the SMTP server accepted.
\<close>

record world =
  stdout :: "log_line list"
  queries_sent :: "string list"
  send_calls :: "email_message list"
  delivered :: "email_message list"

section \<open>The HTML formatter\<close>

text \<open>
  Strings are byte lists: the em dash of the source text is its three UTF-8 bytes.
\<close>

definition em_dash :: string where
  "em_dash = [CHR 0xE2, CHR 0x80, CHR 0x94]"

definition apostrophe :: string where
  "apostrophe = [CHR 0x27]"

text \<open>Python's \<open>v or d\<close> for a value \<open>v\<close> that is \<open>None\<close> or a string.\<close>

definition or_default :: "string option \<Rightarrow> string \<Rightarrow> string" where
  "or_default v d = (case v of None \<Rightarrow> d | Some s \<Rightarrow> if s \<noteq> [] then s else d)"

text \<open>The body of the \<open>for r in results\<close> loop: the text appended to \<open>html\<close> for one result.\<close>

definition format_row :: "search_result \<Rightarrow> string" where
  "format_row r =
     (let title' = or_default (title r) ''No title'';
          snippet' = or_default (snippet r) '''';
          link' = or_default (link r) ''''
      in ''<tr><td>'' @ title' @ ''</td><td>'' @ snippet' @ ''</td><td><a href=''
           @ apostrophe @ link' @ apostrophe @ ''>link</a></td></tr>'')"

fun append_rows :: "string \<Rightarrow> search_result list \<Rightarrow> string" where
  "append_rows html [] = html"
| "append_rows html (r # rs) = append_rows (html @ format_row r) rs"

text \<open>
  \<open>format_email_html\<close> reads the clock itself: \<open>now_strftime\<close> is what
  \<open>datetime.datetime.now().strftime("%Y-%m-%d %H:%M IST")\<close> returns at the call.
\<close>

definition format_email_html :: "env \<Rightarrow> search_result list \<Rightarrow> string" where
  "format_email_html ev results =
     (let dt = now_strftime ev;
          html = ''<h2>Daily Jobs '' @ em_dash @ '' Entry-level AI (Collected '' @ dt @ '')</h2>''
      in if results = [] then html @ ''<p>No results found.</p>''
         else
           (let html = html @ ''<table border='0' cellpadding='6' cellspacing='0'>'';
                html = html @ ''<tr><th align='left'>Title</th><th align='left'>Company / Snippet</th><th align='left'>Link</th></tr>'';
                html = append_rows html results
            in html @ ''</table>''))"

section \<open>Query runner\<close>

definition SEARCH_QUERIES :: "string list" where
  \<open>SEARCH_QUERIES =
     [''site:linkedin.com "entry level" "machine learning engineer" OR "AI engineer"'',
      ''site:indeed.com "entry level" "machine learning" "engineer"'',
      ''site:angel.co "machine learning engineer" "junior"'',
      ''"entry level" "AI Engineer" "new grad"'']\<close>

text \<open>\<open>r.raise_for_status()\<close>: an error status (4xx or 5xx) raises.\<close>

definition raise_for_status :: "response \<Rightarrow> exn + unit" where
  "raise_for_status r =
     (if 400 \<le> status_code r \<and> status_code r < 600 then Inl (Exception ''HTTPError'')
      else Inr ())"

definition search_with_serpapi :: "env \<Rightarrow> string \<Rightarrow> string \<Rightarrow> nat \<Rightarrow> exn + serp_json" where
  "search_with_serpapi ev query serpapi_key n =
     (let ps = \<lparr>p_engine = ''google'', p_q = query, p_num = n,
                 p_google_domain = ''google.com'', p_gl = ''in'', p_hl = ''en'',
                 p_api_key = serpapi_key\<rparr>
      in case requests_get ev ps of
           Inl e \<Rightarrow> Inl e
         | Inr r \<Rightarrow> (case raise_for_status r of Inl e \<Rightarrow> Inl e | Inr u \<Rightarrow> json r))"

fun extract_loop :: "search_result list \<Rightarrow> organic_entry list \<Rightarrow> search_result list" where
  "extract_loop results [] = results"
| "extract_loop results (e # es) =
     extract_loop
       (results @ [\<lparr>title = e ''title'', link = e ''link'', snippet = e ''snippet''\<rparr>]) es"

definition extract_links_from_serpapi_json :: "serp_json \<Rightarrow> search_result list" where
  "extract_links_from_serpapi_json js =
     extract_loop [] (case organic_results js of None \<Rightarrow> [] | Some es \<Rightarrow> es)"

text \<open>
  The loop \<open>for q in SEARCH_QUERIES\<close> of \<open>main\<close>, with its \<open>try\<close>/\<open>except Exception\<close>:
  an exception of the provider call is printed and the loop goes on.
\<close>

fun query_loop ::
  "env \<Rightarrow> string \<Rightarrow> world \<times> search_result list \<Rightarrow> string list \<Rightarrow> world \<times> search_result list" where
  "query_loop ev key (w, aggregated) [] = (w, aggregated)"
| "query_loop ev key (w, aggregated) (qu # qs) =
     (let w1 = w\<lparr>queries_sent := queries_sent w @ [qu]\<rparr>
      in case search_with_serpapi ev qu key 10 of
           Inl e \<Rightarrow>
             query_loop ev key (w1\<lparr>stdout := stdout w1 @ [SerpAPI_error qu e]\<rparr>, aggregated) qs
         | Inr js \<Rightarrow>
             query_loop ev key (w1, aggregated @ extract_links_from_serpapi_json js) qs)"

text \<open>The first part of \<open>main\<close>: \<open>aggregated = []\<close> and the \<open>if SERPAPI_KEY\<close> statement.\<close>

definition run_queries :: "env \<Rightarrow> world \<Rightarrow> world \<times> search_result list" where
  "run_queries ev w =
     (case SERPAPI_KEY ev of
        None \<Rightarrow> (w\<lparr>stdout := stdout w @ [No_SERPAPI_KEY]\<rparr>, [])
      | Some key \<Rightarrow>
          if key \<noteq> [] then query_loop ev key (w, []) SEARCH_QUERIES
          else (w\<lparr>stdout := stdout w @ [No_SERPAPI_KEY]\<rparr>, []))"

section \<open>Notifier and \<open>main\<close>\<close>

text \<open>
  The body of the \<open>with smtplib.SMTP(...) as s\<close> block: negotiate TLS, log in, send. The first
  step that fails raises; the message is delivered when \<open>sendmail\<close> returns.
\<close>

definition smtp_session_body :: "env \<Rightarrow> world \<Rightarrow> email_message \<Rightarrow> world \<times> (exn + unit)" where
  "smtp_session_body ev w msg =
     (case smtp_starttls ev of Some e \<Rightarrow> (w, Inl e) | None \<Rightarrow>
     (case smtp_login ev of Some e \<Rightarrow> (w, Inl e) | None \<Rightarrow>
     (case smtp_sendmail ev msg of Some e \<Rightarrow> (w, Inl e)
      | None \<Rightarrow> (w\<lparr>delivered := delivered w @ [msg]\<rparr>, Inr ()))))"

text \<open>
  \<open>send_email_html\<close>: the message is built and the connection opened; when that fails, the
  block is never entered. Otherwise the body runs, and the block is left through the
  session's exit, whether the body raised or not: an exception of the exit replaces the
  outcome of the body, and without one the body's exception, if any, goes on.
\<close>

definition build_message :: "env \<Rightarrow> string \<Rightarrow> string \<Rightarrow> email_message" where
  "build_message ev subject html_body =
     \<lparr>msg_subject = subject, msg_from = SENDER ev, msg_to = RECIPIENT ev, msg_html = html_body\<rparr>"

definition send_email_html :: "env \<Rightarrow> world \<Rightarrow> string \<Rightarrow> string \<Rightarrow> world \<times> (exn + unit)" where
  "send_email_html ev w subject html_body =
     (let msg = build_message ev subject html_body;
          w1 = w\<lparr>send_calls := send_calls w @ [msg]\<rparr>
      in case smtp_connect ev of
           Some e \<Rightarrow> (w1, Inl e)
         | None \<Rightarrow>
             (case smtp_session_body ev w1 msg of
                (w2, r) \<Rightarrow>
                  (case smtp_quit ev of Some e \<Rightarrow> (w2, Inl e) | None \<Rightarrow> (w2, r))))"

definition email_subject :: "env \<Rightarrow> string" where
  "email_subject ev = ''[Daily] Entry-level AI Jobs '' @ em_dash @ '' '' @ today_isoformat ev"

text \<open>
  \<open>main\<close>. The result is \<open>Inl e\<close> when the exception \<open>e\<close> leaves \<open>main\<close>, and the final
  world otherwise.
\<close>

definition main :: "env \<Rightarrow> world \<Rightarrow> exn + world" where
  "main ev w0 =
     (case run_queries ev w0 of
        (w1, aggregated) \<Rightarrow>
          (let dedup = deduplicate aggregated;
               html = format_email_html ev dedup;
               subject = email_subject ev
           in case send_email_html ev w1 subject html of
                (w2, Inr u) \<Rightarrow> Inr (w2\<lparr>stdout := stdout w2 @ [Email_sent (length dedup)]\<rparr>)
              | (w2, Inl e) \<Rightarrow> Inr (w2\<lparr>stdout := stdout w2 @ [Failed_to_send e]\<rparr>)))"

section \<open>Example data\<close>

text \<open>The three results of the specification's scenario.\<close>

definition result_A :: search_result where
  "result_A = \<lparr>title = Some ''A'', link = Some ''x'', snippet = None\<rparr>"

definition result_B :: search_result where
  "result_B = \<lparr>title = Some ''B'', link = Some ''x'', snippet = None\<rparr>"

definition result_C :: search_result where
  "result_C = \<lparr>title = Some ''C'', link = Some ''y'', snippet = None\<rparr>"

text \<open>Results with pairwise different links: the link of \<open>numbered i\<close> is \<open>i + 1\<close> letters long.\<close>

definition numbered :: "nat \<Rightarrow> search_result" where
  "numbered i = \<lparr>title = None, link = Some (replicate (Suc i) CHR ''a''), snippet = None\<rparr>"

text \<open>Results without a usable link: the link absent, and the link present but empty.\<close>

definition no_link :: search_result where
  "no_link = \<lparr>title = Some ''N'', link = None, snippet = None\<rparr>"

definition empty_link :: search_result where
  "empty_link = \<lparr>title = Some ''E'', link = Some '''', snippet = None\<rparr>"

text \<open>A result with no field at all, and one with every field.\<close>

definition bare_result :: search_result where
  "bare_result = \<lparr>title = None, link = None, snippet = None\<rparr>"

definition full_result :: search_result where
  "full_result = \<lparr>title = Some ''T'', link = Some ''u'', snippet = Some ''S''\<rparr>"

text \<open>
  Surroundings for a whole run: the request for the second query times out, the third is
  answered with status 503, the other two are answered with one result each; the SMTP
  server accepts the message.
\<close>

definition example_env :: env where
  "example_env =
     \<lparr>SERPAPI_KEY = Some ''key'', SENDER = ''from@example.org'', RECIPIENT = ''to@example.org'',
      requests_get =
        (\<lambda>ps. if p_q ps = SEARCH_QUERIES ! 1 then Inl (Exception ''timeout'')
              else if p_q ps = SEARCH_QUERIES ! 2
              then Inr \<lparr>status_code = 503, json = Inl (Exception ''no body'')\<rparr>
              else Inr \<lparr>status_code = 200,
                       json = Inr \<lparr>organic_results =
                         Some [[''title'' \<mapsto> ''job'', ''link'' \<mapsto> p_q ps]]\<rparr>\<rparr>),
      smtp_connect = None, smtp_starttls = None, smtp_login = None,
      smtp_sendmail = (\<lambda>m. None), smtp_quit = None,
      now_strftime = ''2024-01-01 09:00 IST'', today_isoformat = ''2024-01-01''\<rparr>"

text \<open>The same surroundings with an SMTP server that rejects the login.\<close>

definition failing_smtp_env :: env where
  "failing_smtp_env = example_env\<lparr>smtp_login := Some (Exception ''auth'')\<rparr>"

text \<open>
  The same surroundings with an SMTP server that accepts the message and then answers
  \<open>QUIT\<close> with an error.
\<close>

definition failing_quit_env :: env where
  "failing_quit_env = example_env\<lparr>smtp_quit := Some (Exception ''quit'')\<rparr>"

definition empty_world :: world where
  "empty_world = \<lparr>stdout = [], queries_sent = [], send_calls = [], delivered = []\<rparr>"

section \<open>Auxiliary notions for stating the properties of a run\<close>

text \<open>What one query contributes to \<open>aggregated\<close>, and what it prints.\<close>

definition query_results :: "env \<Rightarrow> string \<Rightarrow> string \<Rightarrow> search_result list" where
  "query_results ev key qu =
     (case search_with_serpapi ev qu key 10 of
        Inl e \<Rightarrow> []
      | Inr js \<Rightarrow> extract_links_from_serpapi_json js)"

definition query_errors :: "env \<Rightarrow> string \<Rightarrow> string \<Rightarrow> log_line list" where
  "query_errors ev key qu =
     (case search_with_serpapi ev qu key 10 of
        Inl e \<Rightarrow> [SerpAPI_error qu e]
      | Inr js \<Rightarrow> [])"

text \<open>The message that \<open>main\<close> hands to \<open>send_email_html\<close> for the collected results.\<close>

definition message_for :: "env \<Rightarrow> search_result list \<Rightarrow> email_message" where
  "message_for ev aggregated =
     build_message ev (email_subject ev) (format_email_html ev (deduplicate aggregated))"

text \<open>The outcome of the call of \<open>send_email_html\<close> that \<open>main\<close> makes.\<close>

definition send_result :: "env \<Rightarrow> world \<Rightarrow> exn + unit" where
  "send_result ev w0 =
     snd (send_email_html ev (fst (run_queries ev w0)) (email_subject ev)
            (format_email_html ev (deduplicate (snd (run_queries ev w0)))))"

section \<open>Facts about the loop\<close>

lemma MAX_RESULTS_pos: "0 < MAX_RESULTS"
  by (simp add: MAX_RESULTS_def)

lemma dedup_step_cases:
  "dedup_step (seen, dedup) item =
     (if truthy (link item) \<and> the (link item) \<notin> seen
      then (insert (the (link item)) seen, dedup @ [item]) else (seen, dedup))"
  by (simp add: dedup_step_def truthy_def split: option.splits)

lemma dedup_unbounded_snoc:
  "dedup_unbounded st (xs @ [x]) = dedup_step (dedup_unbounded st xs) x"
  by (induction xs arbitrary: st) simp_all

lemma dedup_unbounded_append:
  "dedup_unbounded st (xs @ ys) = dedup_unbounded (dedup_unbounded st xs) ys"
  by (induction xs arbitrary: st) simp_all

lemma dedup_unbounded_extends:
  "\<exists>ys. snd (dedup_unbounded (seen, dedup) xs) = dedup @ ys"
proof (induction xs arbitrary: seen dedup)
  case Nil
  show ?case by simp
next
  case (Cons x xs)
  show ?case
  proof (cases "truthy (link x) \<and> the (link x) \<notin> seen")
    case True
    from Cons.IH [of "insert (the (link x)) seen" "dedup @ [x]"]
    obtain ys where "snd (dedup_unbounded (insert (the (link x)) seen, dedup @ [x]) xs)
        = (dedup @ [x]) @ ys" by blast
    with True show ?thesis by (simp add: dedup_step_cases)
  next
    case False
    then have "dedup_step (seen, dedup) x = (seen, dedup)"
      by (simp only: dedup_step_cases if_False)
    with Cons.IH [of seen dedup] show ?thesis by simp
  qed
qed

text \<open>The capped loop returns the first \<open>MAX_RESULTS\<close> entries of the cap-free result.\<close>

lemma dedup_loop_take:
  "length dedup < MAX_RESULTS \<Longrightarrow>
   dedup_loop seen dedup xs = take MAX_RESULTS (snd (dedup_unbounded (seen, dedup) xs))"
proof (induction xs arbitrary: seen dedup)
  case Nil
  then show ?case by simp
next
  case (Cons x xs)
  obtain seen' dedup' where st: "dedup_step (seen, dedup) x = (seen', dedup')"
    by (cases "dedup_step (seen, dedup) x")
  have len: "length dedup' \<le> Suc (length dedup)"
    using st by (auto simp: dedup_step_cases split: if_splits)
  show ?case
  proof (cases "MAX_RESULTS \<le> length dedup'")
    case True
    with len Cons.prems have eq: "length dedup' = MAX_RESULTS" by simp
    obtain ys where "snd (dedup_unbounded (seen', dedup') xs) = dedup' @ ys"
      using dedup_unbounded_extends by blast
    with eq True st show ?thesis by simp
  next
    case False
    then have "length dedup' < MAX_RESULTS" by simp
    from Cons.IH [OF this, of seen'] False st show ?thesis by simp
  qed
qed

lemma deduplicate_take:
  "deduplicate xs = take MAX_RESULTS (snd (dedup_unbounded ({}, []) xs))"
  by (simp add: deduplicate_def dedup_loop_take MAX_RESULTS_pos)

lemma first_occurrences_snoc:
  "first_occurrences (xs @ [x]) =
     first_occurrences xs @
       (if truthy (link x) \<and> link x \<notin> set (map link xs) then [x] else [])"
proof -
  let ?P = "\<lambda>ys i. truthy (link (ys ! i)) \<and> (\<forall>j < i. link (ys ! j) \<noteq> link (ys ! i))"
  have old: "filter (?P (xs @ [x])) [0 ..< length xs] = filter (?P xs) [0 ..< length xs]"
    by (rule filter_cong) (auto simp: nth_append)
  have map_old: "map (\<lambda>i. (xs @ [x]) ! i) (filter (?P xs) [0 ..< length xs])
      = map (\<lambda>i. xs ! i) (filter (?P xs) [0 ..< length xs])"
    by (rule map_cong) (auto simp: nth_append)
  have "(\<forall>j < length xs. link (xs ! j) \<noteq> link x) \<longleftrightarrow> link x \<notin> set (map link xs)"
    by (metis (no_types, lifting) in_set_conv_nth length_map nth_map)
  then have new: "?P (xs @ [x]) (length xs) \<longleftrightarrow> truthy (link x) \<and> link x \<notin> set (map link xs)"
    by (simp add: nth_append)
  show ?thesis
    unfolding first_occurrences_def using old map_old new
    by (simp add: nth_append)
qed

lemma first_occurrences_Nil: "first_occurrences [] = []"
  by (simp add: first_occurrences_def)

lemma links_of_snoc:
  "links_of (xs @ [x]) =
     (if truthy (link x) then insert (the (link x)) (links_of xs) else links_of xs)"
  by (auto simp: links_of_def truthy_def split: option.splits)

lemma links_of_member:
  "truthy (link x) \<Longrightarrow> the (link x) \<in> links_of xs \<longleftrightarrow> link x \<in> set (map link xs)"
  by (auto simp: links_of_def truthy_def split: option.splits)

lemma dedup_unbounded_char:
  "dedup_unbounded ({}, []) xs = (links_of xs, first_occurrences xs)"
proof (induction xs rule: rev_induct)
  case Nil
  show ?case by (simp add: links_of_def first_occurrences_Nil)
next
  case (snoc x xs)
  show ?case
  proof (cases "truthy (link x)")
    case True
    then show ?thesis
      using snoc
      by (simp add: dedup_unbounded_snoc dedup_step_cases first_occurrences_snoc
          links_of_snoc links_of_member insert_absorb)
  next
    case False
    then show ?thesis
      using snoc
      by (simp add: dedup_unbounded_snoc dedup_step_cases first_occurrences_snoc links_of_snoc)
  qed
qed

lemma deduplicate_first_occurrences:
  "deduplicate xs = take MAX_RESULTS (first_occurrences xs)"
  by (simp add: deduplicate_take dedup_unbounded_char)

lemma set_first_occurrences: "set (first_occurrences xs) \<subseteq> set xs"
  by (auto simp: first_occurrences_def)

lemma first_occurrences_truthy: "r \<in> set (first_occurrences xs) \<Longrightarrow> truthy (link r)"
  by (auto simp: first_occurrences_def)

lemma distinct_first_occurrences: "distinct (map link (first_occurrences xs))"
proof (induction xs rule: rev_induct)
  case Nil
  show ?case by (simp add: first_occurrences_Nil)
next
  case (snoc x xs)
  show ?case
  proof (cases "truthy (link x) \<and> link x \<notin> set (map link xs)")
    case True
    then have eq: "first_occurrences (xs @ [x]) = first_occurrences xs @ [x]"
      unfolding first_occurrences_snoc if_P [OF True] by simp
    have "link x \<notin> set (map link (first_occurrences xs))"
      using True set_first_occurrences [of xs] by auto
    with snoc show ?thesis unfolding eq by simp
  next
    case False
    then have "first_occurrences (xs @ [x]) = first_occurrences xs"
      unfolding first_occurrences_snoc if_not_P [OF False] by simp
    with snoc show ?thesis by simp
  qed
qed

lemma subseq_first_occurrences: "subseq (first_occurrences xs) xs"
proof (induction xs rule: rev_induct)
  case Nil
  show ?case by (simp add: first_occurrences_Nil)
next
  case (snoc x xs)
  then have "subseq (first_occurrences xs @ [x]) (xs @ [x])"
    and "subseq (first_occurrences xs) (xs @ [x])"
    by (simp_all add: list_emb_append_mono list_emb_prefix)
  then show ?case by (simp add: first_occurrences_snoc)
qed

lemma deduplicate_distinct: "distinct (map link (deduplicate xs))"
  by (simp add: deduplicate_first_occurrences take_map [symmetric] distinct_first_occurrences)

lemma dedup_step_falsy:
  "\<not> truthy (link item) \<Longrightarrow> dedup_step st item = st"
  by (cases st) (simp add: dedup_step_cases)

lemma dedup_unbounded_filter:
  "dedup_unbounded st (filter (\<lambda>r. truthy (link r)) xs) = dedup_unbounded st xs"
  by (induction xs arbitrary: st) (simp_all add: dedup_step_falsy)

lemma deduplicate_filter:
  "deduplicate (filter (\<lambda>r. truthy (link r)) xs) = deduplicate xs"
  by (simp add: deduplicate_take dedup_unbounded_filter)

lemma deduplicate_truthy: "r \<in> set (deduplicate xs) \<Longrightarrow> truthy (link r)"
  by (auto simp: deduplicate_first_occurrences dest: in_set_takeD first_occurrences_truthy)

lemma deduplicate_subseq: "subseq (deduplicate xs) xs"
proof -
  have "subseq (take MAX_RESULTS (first_occurrences xs)) (first_occurrences xs)"
    by (metis append_take_drop_id list_emb_prefix subseq_order.order_refl)
  then show ?thesis
    using subseq_first_occurrences [of xs]
    by (auto simp: deduplicate_first_occurrences intro: subseq_order.order_trans)
qed

lemma deduplicate_stops:
  assumes "length (deduplicate xs) = MAX_RESULTS"
  shows "deduplicate (xs @ ys) = deduplicate xs"
proof -
  obtain s d where st: "dedup_unbounded ({}, []) xs = (s, d)"
    by (cases "dedup_unbounded ({}, []) xs")
  obtain zs where zs: "snd (dedup_unbounded (s, d) ys) = d @ zs"
    using dedup_unbounded_extends by blast
  from assms st have "MAX_RESULTS \<le> length d"
    by (simp add: deduplicate_take)
  with st zs show ?thesis
    by (simp add: deduplicate_take dedup_unbounded_append)
qed

lemma first_occurrences_unbounded:
  "first_occurrences xs = snd (dedup_unbounded ({}, []) xs)"
  by (simp add: dedup_unbounded_char)

section \<open>Facts about the formatter\<close>

lemma append_rows_concat: "append_rows html rs = html @ concat (map format_row rs)"
  by (induction rs arbitrary: html) simp_all

lemma format_row_cells:
  "format_row r =
     ''<tr><td>'' @ or_default (title r) ''No title'' @ ''</td><td>'' @ or_default (snippet r) []
       @ ''</td><td><a href='' @ apostrophe @ or_default (link r) [] @ apostrophe
       @ ''>link</a></td></tr>''"
  by (simp add: format_row_def)

lemma or_default_empty_string: "or_default v [] = (case v of None \<Rightarrow> [] | Some x \<Rightarrow> x)"
  by (simp add: or_default_def split: option.splits)

lemma format_email_html_Nil:
  "format_email_html ev [] =
     ''<h2>Daily Jobs '' @ em_dash @ '' Entry-level AI (Collected '' @ now_strftime ev
       @ '')</h2><p>No results found.</p>''"
  by (simp add: format_email_html_def)

lemma format_email_html_rows:
  "rs \<noteq> [] \<Longrightarrow>
   format_email_html ev rs =
     ''<h2>Daily Jobs '' @ em_dash @ '' Entry-level AI (Collected '' @ now_strftime ev @ '')</h2>''
       @ ''<table border='0' cellpadding='6' cellspacing='0'>''
       @ ''<tr><th align='left'>Title</th><th align='left'>Company / Snippet</th><th align='left'>Link</th></tr>''
       @ concat (map format_row rs) @ ''</table>''"
  by (simp add: format_email_html_def append_rows_concat)

lemma format_email_html_heading:
  "\<exists>body. format_email_html ev rs =
     ''<h2>Daily Jobs '' @ em_dash @ '' Entry-level AI (Collected '' @ now_strftime ev @ '')</h2>''
       @ body"
proof (cases "rs = []")
  case True
  then show ?thesis by (simp add: format_email_html_Nil)
next
  case False
  from format_email_html_rows [OF this, of ev] show ?thesis by simp
qed

lemma deduplicate_drop_falsy:
  assumes "\<not> truthy (link r)"
  shows "deduplicate (xs @ r # ys) = deduplicate (xs @ ys)"
proof -
  have "filter (\<lambda>r. truthy (link r)) (xs @ r # ys) = filter (\<lambda>r. truthy (link r)) (xs @ ys)"
    using assms by simp
  then show ?thesis by (metis deduplicate_filter)
qed

section \<open>Facts about a run\<close>

lemma query_loop_result:
  "query_loop ev key (w, agg) qs =
     (w\<lparr>stdout := stdout w @ concat (map (query_errors ev key) qs),
        queries_sent := queries_sent w @ qs\<rparr>,
      agg @ concat (map (query_results ev key) qs))"
proof (induction qs arbitrary: w agg)
  case Nil
  show ?case by simp
next
  case (Cons qu qs)
  show ?case
  proof (cases "search_with_serpapi ev qu key 10")
    case (Inl e)
    then show ?thesis
      by (simp add: Cons.IH query_errors_def query_results_def)
  next
    case (Inr js)
    then show ?thesis
      by (simp add: Cons.IH query_errors_def query_results_def)
  qed
qed

lemma run_queries_with_key:
  "SERPAPI_KEY ev = Some key \<Longrightarrow> key \<noteq> [] \<Longrightarrow>
   run_queries ev w =
     (w\<lparr>stdout := stdout w @ concat (map (query_errors ev key) SEARCH_QUERIES),
        queries_sent := queries_sent w @ SEARCH_QUERIES\<rparr>,
      concat (map (query_results ev key) SEARCH_QUERIES))"
  by (simp add: run_queries_def query_loop_result)

lemma run_queries_keeps:
  "send_calls (fst (run_queries ev w)) = send_calls w \<and>
   delivered (fst (run_queries ev w)) = delivered w"
  by (simp add: run_queries_def query_loop_result split: option.splits)

lemma smtp_session_body_world:
  "smtp_session_body ev w msg = (w', r) \<Longrightarrow>
   stdout w' = stdout w \<and> queries_sent w' = queries_sent w \<and> send_calls w' = send_calls w \<and>
   delivered w' = (case r of Inl e \<Rightarrow> delivered w | Inr u \<Rightarrow> delivered w @ [msg])"
  by (auto simp: smtp_session_body_def split: option.splits)

lemma smtp_session_body_result:
  "snd (smtp_session_body ev w msg) =
     (case smtp_starttls ev of Some e \<Rightarrow> Inl e | None \<Rightarrow>
     (case smtp_login ev of Some e \<Rightarrow> Inl e | None \<Rightarrow>
     (case smtp_sendmail ev msg of Some e \<Rightarrow> Inl e | None \<Rightarrow> Inr ())))"
  by (simp add: smtp_session_body_def split: option.splits)

lemma send_email_html_world:
  "send_email_html ev w subject html = (w', r) \<Longrightarrow>
   stdout w' = stdout w \<and> queries_sent w' = queries_sent w \<and>
   send_calls w' = send_calls w @ [build_message ev subject html]"
proof -
  assume a: "send_email_html ev w subject html = (w', r)"
  let ?msg = "build_message ev subject html"
  let ?w1 = "w\<lparr>send_calls := send_calls w @ [?msg]\<rparr>"
  obtain w2 rb where b: "smtp_session_body ev ?w1 ?msg = (w2, rb)"
    by (cases "smtp_session_body ev ?w1 ?msg")
  from smtp_session_body_world [OF b] a b show ?thesis
    by (auto simp: send_email_html_def Let_def split: option.splits)
qed

lemma send_email_html_delivered:
  "delivered (fst (send_email_html ev w subject html)) =
     (if smtp_connect ev = None \<and> smtp_starttls ev = None \<and> smtp_login ev = None \<and>
         smtp_sendmail ev (build_message ev subject html) = None
      then delivered w @ [build_message ev subject html] else delivered w)"
  by (simp add: send_email_html_def smtp_session_body_def Let_def split: option.splits)

lemma main_result:
  assumes "run_queries ev w0 = (w1, aggregated)"
    and "send_email_html ev w1 (email_subject ev) (format_email_html ev (deduplicate aggregated))
      = (w2, r)"
  shows "main ev w0 =
     Inr (w2\<lparr>stdout := stdout w2 @
        [case r of Inl e \<Rightarrow> Failed_to_send e
         | Inr u \<Rightarrow> Email_sent (length (deduplicate aggregated))]\<rparr>)"
  using assms by (cases r) (simp_all add: main_def)

lemma in_query_errors:
  "qu \<in> set qs \<Longrightarrow> search_with_serpapi ev qu key 10 = Inl e \<Longrightarrow>
   SerpAPI_error qu e \<in> set (concat (map (query_errors ev key) qs))"
  by (auto simp: query_errors_def intro!: bexI [of _ qu])

lemma send_email_html_result:
  "snd (send_email_html ev w subject html) =
     (case smtp_connect ev of Some e \<Rightarrow> Inl e | None \<Rightarrow>
     (case smtp_quit ev of Some e \<Rightarrow> Inl e | None \<Rightarrow>
     (case smtp_starttls ev of Some e \<Rightarrow> Inl e | None \<Rightarrow>
     (case smtp_login ev of Some e \<Rightarrow> Inl e | None \<Rightarrow>
     (case smtp_sendmail ev (build_message ev subject html) of Some e \<Rightarrow> Inl e
      | None \<Rightarrow> Inr ())))))"
  by (simp add: send_email_html_def smtp_session_body_def Let_def split: option.splits)

section \<open>Properties of the aggregator\<close>

text \<open>
  Claim C1. For every input list, the output of the aggregator contains no two entries
  with the same non-empty link: entries at two different positions of the output have
  different links.
\<close>

theorem no_duplicate_links:
  "i < length (deduplicate xs) \<Longrightarrow> j < length (deduplicate xs) \<Longrightarrow> i \<noteq> j \<Longrightarrow>
   link (deduplicate xs ! i) \<noteq> link (deduplicate xs ! j)"
proof -
  assume i: "i < length (deduplicate xs)" and j: "j < length (deduplicate xs)" and ne: "i \<noteq> j"
  have d: "distinct (map link (deduplicate xs))" by (rule deduplicate_distinct)
  from i j have "map link (deduplicate xs) ! i = link (deduplicate xs ! i)"
    and "map link (deduplicate xs) ! j = link (deduplicate xs ! j)" by simp_all
  with d i j ne show ?thesis by (metis length_map nth_eq_iff_index_eq)
qed

theorem no_duplicate_links_witness:
  "(0::nat) < length (deduplicate [result_A, result_B, result_C]) \<and>
   (1::nat) < length (deduplicate [result_A, result_B, result_C]) \<and> (0::nat) \<noteq> 1 \<and>
   link (deduplicate [result_A, result_B, result_C] ! 0) \<noteq>
   link (deduplicate [result_A, result_B, result_C] ! 1)"
proof -
  have ev: "deduplicate [result_A, result_B, result_C] = [result_A, result_C]"
    by code_simp
  have i: "(0::nat) < length (deduplicate [result_A, result_B, result_C])"
    and j: "(1::nat) < length (deduplicate [result_A, result_B, result_C])"
    unfolding ev by simp_all
  have ne: "(0::nat) \<noteq> 1" by simp
  from no_duplicate_links [OF i j ne] i j ne show ?thesis by blast
qed

text \<open>
  Claim C2. For every input list, whatever its size, the output of the aggregator has at
  most \<open>MAX_RESULTS\<close> entries, and \<open>MAX_RESULTS\<close> is 20.
\<close>

theorem length_le_MAX_RESULTS:
  "length (deduplicate xs) \<le> MAX_RESULTS \<and> MAX_RESULTS = 20"
  by (simp add: deduplicate_first_occurrences) (simp add: MAX_RESULTS_def)

text \<open>
  Claim C3, as stated: the output is exactly the list of first occurrences of the
  non-empty links. It fails on an input with 21 different links: the loop stops after 20
  entries, and the first (and only) occurrence of the 21st link is not kept.
\<close>

theorem first_occurrence_beyond_cap_counterexample:
  "first_occurrences (map numbered [0 ..< 21]) = map numbered [0 ..< 21] \<and>
   deduplicate (map numbered [0 ..< 21]) = map numbered [0 ..< 20] \<and>
   deduplicate (map numbered [0 ..< 21]) \<noteq> first_occurrences (map numbered [0 ..< 21])"
proof -
  have a: "first_occurrences (map numbered [0 ..< 21]) = map numbered [0 ..< 21]"
    unfolding first_occurrences_unbounded by code_simp
  have b: "deduplicate (map numbered [0 ..< 21]) = map numbered [0 ..< 20]"
    by code_simp
  have "length (map numbered [0 ..< 20]) \<noteq> length (map numbered [0 ..< 21])" by simp
  then have c: "map numbered [0 ..< 20] \<noteq> map numbered [0 ..< 21]" by metis
  from a b c show ?thesis by simp
qed

text \<open>
  Claim C3, amended. The aggregator scans the input in order and keeps the first
  occurrence of each non-empty link until \<open>MAX_RESULTS\<close> entries are kept: its output is
  the list of the first \<open>MAX_RESULTS\<close> first occurrences, which is the list of all first
  occurrences when there are at most \<open>MAX_RESULTS\<close> of them; later entries with a link
  already seen are discarded, the output is a subsequence of the input (its order is the
  input's), and the input \<open>[A/x, B/x, C/y]\<close> yields \<open>[A/x, C/y]\<close>.
\<close>

theorem deduplicate_keeps_first_occurrences:
  "deduplicate xs = take MAX_RESULTS (first_occurrences xs) \<and>
   (length (first_occurrences xs) \<le> MAX_RESULTS \<longrightarrow> deduplicate xs = first_occurrences xs) \<and>
   subseq (deduplicate xs) xs \<and>
   deduplicate [result_A, result_B, result_C] = [result_A, result_C]"
proof -
  have a: "deduplicate xs = take MAX_RESULTS (first_occurrences xs)"
    by (rule deduplicate_first_occurrences)
  have b: "length (first_occurrences xs) \<le> MAX_RESULTS \<longrightarrow> deduplicate xs = first_occurrences xs"
    unfolding a by simp
  have c: "subseq (deduplicate xs) xs"
    by (rule deduplicate_subseq)
  have d: "deduplicate [result_A, result_B, result_C] = [result_A, result_C]"
    by code_simp
  from a b c d show ?thesis by blast
qed

theorem deduplicate_keeps_first_occurrences_witness:
  "length (first_occurrences [result_A, result_B, result_C]) \<le> MAX_RESULTS \<and>
   deduplicate [result_A, result_B, result_C] = first_occurrences [result_A, result_B, result_C] \<and>
   first_occurrences [result_A, result_B, result_C] = [result_A, result_C]"
proof -
  have f: "first_occurrences [result_A, result_B, result_C] = [result_A, result_C]"
    unfolding first_occurrences_unbounded by code_simp
  then have le: "length (first_occurrences [result_A, result_B, result_C]) \<le> MAX_RESULTS"
    by (simp add: MAX_RESULTS_def)
  from deduplicate_keeps_first_occurrences [of "[result_A, result_B, result_C]"] le f
  show ?thesis by simp
qed

text \<open>
  Claim C4. An entry whose link is empty or absent leaves the loop state as it is (it is
  not appended and its link is not added to \<open>seen\<close>), no entry of the output has such a
  link, and removing all such entries from the input does not change the output: they
  neither suppress later entries nor count toward the cap.
\<close>

theorem empty_link_ignored:
  "(\<not> truthy (link item) \<longrightarrow> dedup_step (seen, dedup) item = (seen, dedup)) \<and>
   (\<forall>r \<in> set (deduplicate xs). truthy (link r)) \<and>
   deduplicate (filter (\<lambda>r. truthy (link r)) xs) = deduplicate xs"
  by (simp add: dedup_step_falsy deduplicate_truthy deduplicate_filter)

theorem empty_link_ignored_witness:
  "\<not> truthy (link empty_link) \<and> \<not> truthy (link no_link) \<and>
   dedup_step ({''x''}, [result_A]) empty_link = ({''x''}, [result_A]) \<and>
   dedup_step ({''x''}, [result_A]) no_link = ({''x''}, [result_A]) \<and>
   result_A \<in> set (deduplicate (replicate 25 empty_link @ replicate 25 no_link @ [result_A])) \<and>
   truthy (link result_A) \<and>
   deduplicate (replicate 25 empty_link @ replicate 25 no_link @ [result_A]) = [result_A]"
proof -
  let ?xs = "replicate 25 empty_link @ replicate 25 no_link @ [result_A]"
  have e: "\<not> truthy (link empty_link)" and n: "\<not> truthy (link no_link)"
    and t: "truthy (link result_A)"
    by (simp_all add: truthy_def empty_link_def no_link_def result_A_def)
  have f: "filter (\<lambda>r. truthy (link r)) ?xs = [result_A]"
    using e n t by simp
  have d: "deduplicate [result_A] = [result_A]" by code_simp
  from empty_link_ignored [of empty_link "{''x''}" "[result_A]" ?xs]
    empty_link_ignored [of no_link "{''x''}" "[result_A]" ?xs] e n t
  show ?thesis unfolding f d by simp
qed

text \<open>
  Claim C5. The output of the aggregator is the first \<open>MAX_RESULTS\<close> entries of the
  cap-free deduplication of the same input; once the output has \<open>MAX_RESULTS\<close> entries,
  whatever follows in the input is not looked at; and for some input, reordering it
  (here: reversing it) changes which entries are in the output.
\<close>

theorem deduplicate_is_capped_prefix:
  "deduplicate xs = take MAX_RESULTS (snd (dedup_unbounded ({}, []) xs)) \<and>
   (length (deduplicate xs) = MAX_RESULTS \<longrightarrow> deduplicate (xs @ ys) = deduplicate xs) \<and>
   (\<exists>as. set (deduplicate (rev as)) \<noteq> set (deduplicate as))"
proof -
  have "set (deduplicate (rev (map numbered [0 ..< 21]))) \<noteq>
      set (deduplicate (map numbered [0 ..< 21]))"
    by code_simp
  then have "\<exists>as. set (deduplicate (rev as)) \<noteq> set (deduplicate as)" ..
  then show ?thesis
    using deduplicate_take [of xs] deduplicate_stops [of xs ys] by blast
qed

theorem deduplicate_is_capped_prefix_witness:
  "length (deduplicate (map numbered [0 ..< 20])) = MAX_RESULTS \<and>
   deduplicate (map numbered [0 ..< 20] @ [result_A]) = deduplicate (map numbered [0 ..< 20]) \<and>
   deduplicate (map numbered [0 ..< 20] @ [result_A]) = map numbered [0 ..< 20]"
proof -
  have d: "deduplicate (map numbered [0 ..< 20]) = map numbered [0 ..< 20]"
    by code_simp
  then have l: "length (deduplicate (map numbered [0 ..< 20])) = MAX_RESULTS"
    by (simp add: MAX_RESULTS_def)
  from deduplicate_is_capped_prefix [of "map numbered [0 ..< 20]" "[result_A]"] l d
  show ?thesis by simp
qed

section \<open>Properties of the formatter\<close>

text \<open>
  Claim C6. For an empty result set the formatter produces the heading followed by the
  "No results found." paragraph; otherwise it produces the heading, the table with its
  header row, then exactly one row per result in the order of the results, and the
  closing tag. In a row, a missing title is rendered as "No title", and a missing snippet
  or link as the empty string (so a missing link gives an anchor with an empty \<open>href\<close>).
\<close>

theorem format_email_html_shape:
  "format_email_html ev [] =
     ''<h2>Daily Jobs '' @ em_dash @ '' Entry-level AI (Collected '' @ now_strftime ev
       @ '')</h2><p>No results found.</p>'' \<and>
   (rs \<noteq> [] \<longrightarrow>
      format_email_html ev rs =
        ''<h2>Daily Jobs '' @ em_dash @ '' Entry-level AI (Collected '' @ now_strftime ev @ '')</h2>''
          @ ''<table border='0' cellpadding='6' cellspacing='0'>''
          @ ''<tr><th align='left'>Title</th><th align='left'>Company / Snippet</th><th align='left'>Link</th></tr>''
          @ concat (map format_row rs) @ ''</table>'') \<and>
   format_row \<lparr>title = t, link = l, snippet = s\<rparr> =
     ''<tr><td>''
       @ (case t of None \<Rightarrow> ''No title'' | Some x \<Rightarrow> if x = [] then ''No title'' else x)
       @ ''</td><td>'' @ (case s of None \<Rightarrow> [] | Some x \<Rightarrow> x)
       @ ''</td><td><a href='' @ apostrophe @ (case l of None \<Rightarrow> [] | Some x \<Rightarrow> x) @ apostrophe
       @ ''>link</a></td></tr>''"
proof -
  have t: "or_default t ''No title'' =
      (case t of None \<Rightarrow> ''No title'' | Some x \<Rightarrow> if x = [] then ''No title'' else x)"
    by (simp add: or_default_def split: option.splits)
  show ?thesis
    using format_email_html_rows [of rs ev]
    by (simp add: format_email_html_Nil format_row_cells or_default_empty_string t)
qed

theorem format_email_html_shape_witness:
  "[bare_result, full_result] \<noteq> [] \<and>
   format_email_html example_env [bare_result, full_result] =
     ''<h2>Daily Jobs '' @ em_dash @ '' Entry-level AI (Collected 2024-01-01 09:00 IST)</h2>''
       @ ''<table border='0' cellpadding='6' cellspacing='0'>''
       @ ''<tr><th align='left'>Title</th><th align='left'>Company / Snippet</th><th align='left'>Link</th></tr>''
       @ ''<tr><td>No title</td><td></td><td><a href='' @ apostrophe @ apostrophe @ ''>link</a></td></tr>''
       @ ''<tr><td>T</td><td>S</td><td><a href='u'>link</a></td></tr>''
       @ ''</table>''"
proof -
  have ne: "[bare_result, full_result] \<noteq> []" by simp
  have n: "now_strftime example_env = ''2024-01-01 09:00 IST''"
    by (simp add: example_env_def)
  have b: "format_row bare_result =
      ''<tr><td>No title</td><td></td><td><a href='' @ apostrophe @ apostrophe @ ''>link</a></td></tr>''"
    using format_email_html_shape [of example_env "[]" None None None]
    by (simp add: bare_result_def)
  have f: "format_row full_result = ''<tr><td>T</td><td>S</td><td><a href='u'>link</a></td></tr>''"
    using format_email_html_shape [of example_env "[]" "Some ''T''" "Some ''u''" "Some ''S''"]
    by (simp add: full_result_def apostrophe_def)
  from format_email_html_shape [of example_env "[bare_result, full_result]"] ne
  show ?thesis by (simp add: n b f)
qed

text \<open>
  Claim C7. The formatter is a function of the result set and of the clock reading only:
  two runs with the same results and the same timestamp produce the same HTML, whatever
  else differs in their surroundings, and every run produces a fragment that starts with
  the heading. The formatter returns a plain string and has no access to the world that
  the effects of the run are recorded in.
\<close>

theorem format_email_html_deterministic:
  "now_strftime ev = now_strftime ev' \<Longrightarrow>
   format_email_html ev rs = format_email_html ev' rs \<and>
   (\<exists>body. format_email_html ev rs =
      ''<h2>Daily Jobs '' @ em_dash @ '' Entry-level AI (Collected '' @ now_strftime ev @ '')</h2>''
        @ body)"
  using format_email_html_heading [of ev rs] by (simp add: format_email_html_def)

theorem format_email_html_deterministic_witness:
  "now_strftime example_env = now_strftime failing_smtp_env \<and>
   format_email_html example_env [full_result] = format_email_html failing_smtp_env [full_result]"
proof -
  have n: "now_strftime example_env = now_strftime failing_smtp_env"
    by (simp add: failing_smtp_env_def)
  from format_email_html_deterministic [OF n, of "[full_result]"] n show ?thesis by simp
qed

text \<open>
  Claim C10. The defaults go by truthiness: a result whose title is the empty string is
  rendered like one without title, as "No title"; a result whose link is the empty string
  is treated by the aggregator like one without link: the loop state is unchanged, and the
  output is the one obtained without the entry.
\<close>

theorem defaults_by_truthiness:
  "format_row (r\<lparr>title := Some []\<rparr>) = format_row (r\<lparr>title := None\<rparr>) \<and>
   format_row \<lparr>title = Some [], link = l, snippet = s\<rparr> =
     ''<tr><td>No title</td><td>'' @ or_default s []
       @ ''</td><td><a href='' @ apostrophe @ or_default l [] @ apostrophe
       @ ''>link</a></td></tr>'' \<and>
   format_email_html ev (xs @ r\<lparr>title := Some []\<rparr> # ys) =
     format_email_html ev (xs @ r\<lparr>title := None\<rparr> # ys) \<and>
   dedup_step (seen, dedup) (r\<lparr>link := Some []\<rparr>) = (seen, dedup) \<and>
   dedup_step (seen, dedup) (r\<lparr>link := None\<rparr>) = (seen, dedup) \<and>
   deduplicate (xs @ r\<lparr>link := Some []\<rparr> # ys) = deduplicate (xs @ r\<lparr>link := None\<rparr> # ys) \<and>
   deduplicate (xs @ r\<lparr>link := Some []\<rparr> # ys) = deduplicate (xs @ ys)"
proof -
  have row: "format_row (r\<lparr>title := Some []\<rparr>) = format_row (r\<lparr>title := None\<rparr>)"
    by (simp add: format_row_cells or_default_def)
  have cell: "format_row \<lparr>title = Some [], link = l, snippet = s\<rparr> =
     ''<tr><td>No title</td><td>'' @ or_default s []
       @ ''</td><td><a href='' @ apostrophe @ or_default l [] @ apostrophe
       @ ''>link</a></td></tr>''"
    by (simp add: format_row_cells or_default_def)
  have html: "format_email_html ev (xs @ r\<lparr>title := Some []\<rparr> # ys) =
     format_email_html ev (xs @ r\<lparr>title := None\<rparr> # ys)"
    by (simp add: format_email_html_def append_rows_concat row)
  have e: "\<not> truthy (link (r\<lparr>link := Some []\<rparr>))" and n: "\<not> truthy (link (r\<lparr>link := None\<rparr>))"
    by (simp_all add: truthy_def)
  have s1: "dedup_step (seen, dedup) (r\<lparr>link := Some []\<rparr>) = (seen, dedup)"
    by (rule dedup_step_falsy [OF e])
  have s2: "dedup_step (seen, dedup) (r\<lparr>link := None\<rparr>) = (seen, dedup)"
    by (rule dedup_step_falsy [OF n])
  have d1: "deduplicate (xs @ r\<lparr>link := Some []\<rparr> # ys) = deduplicate (xs @ ys)"
    by (rule deduplicate_drop_falsy [OF e])
  have d2: "deduplicate (xs @ r\<lparr>link := None\<rparr> # ys) = deduplicate (xs @ ys)"
    by (rule deduplicate_drop_falsy [OF n])
  from row cell html s1 s2 d1 d2 show ?thesis by simp
qed

theorem defaults_by_truthiness_witness:
  "format_row (full_result\<lparr>title := Some []\<rparr>) =
     ''<tr><td>No title</td><td>S</td><td><a href='u'>link</a></td></tr>'' \<and>
   deduplicate ([result_A] @ full_result\<lparr>link := Some []\<rparr> # [result_C]) = [result_A, result_C]"
proof -
  have d: "deduplicate ([result_A] @ [result_C]) = [result_A, result_C]" by code_simp
  have n: "format_row (full_result\<lparr>title := None\<rparr>) =
      ''<tr><td>No title</td><td>S</td><td><a href='u'>link</a></td></tr>''"
    by (simp add: format_row_cells full_result_def or_default_def apostrophe_def)
  note inst = defaults_by_truthiness [of full_result "Some ''u''" "Some ''S''" example_env
      "[result_A]" "[result_C]" "{}" "[]"]
  from inst have a: "format_row (full_result\<lparr>title := Some []\<rparr>) =
      format_row (full_result\<lparr>title := None\<rparr>)" by blast
  from inst have b: "deduplicate ([result_A] @ full_result\<lparr>link := Some []\<rparr> # [result_C]) =
      deduplicate ([result_A] @ [result_C])" by blast
  from a b d n show ?thesis by simp
qed

section \<open>Properties of a run\<close>

text \<open>
  Claim C8. With an API key configured, whichever provider calls fail, \<open>main\<close> does not
  raise: every query of \<open>SEARCH_QUERIES\<close> is sent, each failing query is logged with its
  error and contributes nothing, each successful query contributes its extracted results,
  and \<open>send_email_html\<close> is called once, with the message formatted from the
  deduplicated results of the successful queries.
\<close>

theorem provider_failure_does_not_abort:
  assumes "SERPAPI_KEY ev = Some key" and "key \<noteq> []"
  shows "\<exists>w. main ev w0 = Inr w \<and>
     queries_sent w = queries_sent w0 @ SEARCH_QUERIES \<and>
     send_calls w =
       send_calls w0 @ [message_for ev (concat (map (query_results ev key) SEARCH_QUERIES))] \<and>
     (\<forall>qu \<in> set SEARCH_QUERIES. \<forall>e. search_with_serpapi ev qu key 10 = Inl e \<longrightarrow>
        SerpAPI_error qu e \<in> set (stdout w) \<and> query_results ev key qu = []) \<and>
     (\<forall>qu \<in> set SEARCH_QUERIES. \<forall>js. search_with_serpapi ev qu key 10 = Inr js \<longrightarrow>
        query_results ev key qu = extract_links_from_serpapi_json js)"
proof -
  let ?agg = "concat (map (query_results ev key) SEARCH_QUERIES)"
  let ?w1 = "w0\<lparr>stdout := stdout w0 @ concat (map (query_errors ev key) SEARCH_QUERIES),
        queries_sent := queries_sent w0 @ SEARCH_QUERIES\<rparr>"
  have rq: "run_queries ev w0 = (?w1, ?agg)"
    using assms by (rule run_queries_with_key)
  obtain w2 r where se:
    "send_email_html ev ?w1 (email_subject ev) (format_email_html ev (deduplicate ?agg)) = (w2, r)"
    by (cases "send_email_html ev ?w1 (email_subject ev) (format_email_html ev (deduplicate ?agg))")
  let ?w = "w2\<lparr>stdout := stdout w2 @
        [case r of Inl e \<Rightarrow> Failed_to_send e | Inr u \<Rightarrow> Email_sent (length (deduplicate ?agg))]\<rparr>"
  have m: "main ev w0 = Inr ?w"
    using rq se by (rule main_result)
  note sw = send_email_html_world [OF se]
  have qs: "queries_sent ?w = queries_sent w0 @ SEARCH_QUERIES"
    using sw by simp
  have sc: "send_calls ?w = send_calls w0 @ [message_for ev ?agg]"
    using sw by (simp add: message_for_def)
  have er: "\<forall>qu \<in> set SEARCH_QUERIES. \<forall>e. search_with_serpapi ev qu key 10 = Inl e \<longrightarrow>
        SerpAPI_error qu e \<in> set (stdout ?w) \<and> query_results ev key qu = []"
    using sw in_query_errors [of _ SEARCH_QUERIES ev key]
    by (auto simp: query_results_def)
  have ok: "\<forall>qu \<in> set SEARCH_QUERIES. \<forall>js. search_with_serpapi ev qu key 10 = Inr js \<longrightarrow>
        query_results ev key qu = extract_links_from_serpapi_json js"
    by (simp add: query_results_def)
  from m qs sc er ok show ?thesis by blast
qed

theorem provider_failure_does_not_abort_witness:
  "SERPAPI_KEY example_env = Some ''key'' \<and> ''key'' \<noteq> [] \<and>
   SEARCH_QUERIES ! 1 \<in> set SEARCH_QUERIES \<and>
   search_with_serpapi example_env (SEARCH_QUERIES ! 1) ''key'' 10 = Inl (Exception ''timeout'') \<and>
   concat (map (query_results example_env ''key'') SEARCH_QUERIES) =
     [\<lparr>title = Some ''job'', link = Some (SEARCH_QUERIES ! 0), snippet = None\<rparr>,
      \<lparr>title = Some ''job'', link = Some (SEARCH_QUERIES ! 3), snippet = None\<rparr>] \<and>
   (\<exists>w. main example_env empty_world = Inr w \<and>
      queries_sent w = SEARCH_QUERIES \<and>
      send_calls w =
        [message_for example_env
           [\<lparr>title = Some ''job'', link = Some (SEARCH_QUERIES ! 0), snippet = None\<rparr>,
            \<lparr>title = Some ''job'', link = Some (SEARCH_QUERIES ! 3), snippet = None\<rparr>]] \<and>
      SerpAPI_error (SEARCH_QUERIES ! 1) (Exception ''timeout'') \<in> set (stdout w))"
proof -
  have k: "SERPAPI_KEY example_env = Some ''key''" by (simp add: example_env_def)
  have ne: "''key'' \<noteq> []" by simp
  have q: "SEARCH_QUERIES ! 1 \<in> set SEARCH_QUERIES" by code_simp
  have f: "search_with_serpapi example_env (SEARCH_QUERIES ! 1) ''key'' 10
      = Inl (Exception ''timeout'')"
    by (simp add: search_with_serpapi_def example_env_def)
  have agg: "concat (map (query_results example_env ''key'') SEARCH_QUERIES) =
     [\<lparr>title = Some ''job'', link = Some (SEARCH_QUERIES ! 0), snippet = None\<rparr>,
      \<lparr>title = Some ''job'', link = Some (SEARCH_QUERIES ! 3), snippet = None\<rparr>]"
    by code_simp
  from provider_failure_does_not_abort [OF k ne, of empty_world]
  obtain w where m: "main example_env empty_world = Inr w"
    and qs: "queries_sent w = queries_sent empty_world @ SEARCH_QUERIES"
    and sc: "send_calls w = send_calls empty_world @
       [message_for example_env (concat (map (query_results example_env ''key'') SEARCH_QUERIES))]"
    and er: "\<forall>qu \<in> set SEARCH_QUERIES. \<forall>e.
        search_with_serpapi example_env qu ''key'' 10 = Inl e \<longrightarrow>
        SerpAPI_error qu e \<in> set (stdout w) \<and> query_results example_env ''key'' qu = []"
    by blast
  from er q f have lg: "SerpAPI_error (SEARCH_QUERIES ! 1) (Exception ''timeout'') \<in> set (stdout w)"
    by blast
  from qs have qs': "queries_sent w = SEARCH_QUERIES" by (simp add: empty_world_def)
  from sc have sc': "send_calls w =
        [message_for example_env
           [\<lparr>title = Some ''job'', link = Some (SEARCH_QUERIES ! 0), snippet = None\<rparr>,
            \<lparr>title = Some ''job'', link = Some (SEARCH_QUERIES ! 3), snippet = None\<rparr>]]"
    unfolding agg by (simp add: empty_world_def)
  from k ne q f agg m qs' sc' lg show ?thesis by blast
qed

text \<open>
  Claim C9. \<open>main\<close> never raises. When the send fails with an error, whatever the step
  that failed, the one line printed after the queries is the failure line with that
  error; when it succeeds, it is the success line with the number of deduplicated
  results, and the message has been delivered. The send fails whenever opening the
  connection, negotiating TLS, logging in, transmitting or closing the session fails: an
  error of the connection is raised as it is, an error of closing the session is raised
  whatever happened in the session, and an error of another step is raised when closing
  raises none; the send succeeds only when no step fails. The message is delivered exactly
  when the steps up to the transmission succeed, also when closing the session fails
  afterwards and the run prints the failure line.
\<close>

theorem send_failure_is_caught:
  "(\<exists>w. main ev w0 = Inr w \<and>
      (\<forall>e. send_result ev w0 = Inl e \<longrightarrow>
         stdout w = stdout (fst (run_queries ev w0)) @ [Failed_to_send e]) \<and>
      (send_result ev w0 = Inr () \<longrightarrow>
         stdout w = stdout (fst (run_queries ev w0)) @
           [Email_sent (length (deduplicate (snd (run_queries ev w0))))] \<and>
         delivered w = delivered w0 @ [message_for ev (snd (run_queries ev w0))]) \<and>
      delivered w =
        (if smtp_connect ev = None \<and> smtp_starttls ev = None \<and> smtp_login ev = None \<and>
            smtp_sendmail ev (message_for ev (snd (run_queries ev w0))) = None
         then delivered w0 @ [message_for ev (snd (run_queries ev w0))] else delivered w0)) \<and>
   (smtp_connect ev = Some e \<longrightarrow> snd (send_email_html ev w1 subject html) = Inl e) \<and>
   (smtp_connect ev = None \<and> smtp_quit ev = Some e \<longrightarrow>
      snd (send_email_html ev w1 subject html) = Inl e) \<and>
   (smtp_connect ev = None \<and> smtp_quit ev = None \<and> smtp_starttls ev = Some e \<longrightarrow>
      snd (send_email_html ev w1 subject html) = Inl e) \<and>
   (smtp_connect ev = None \<and> smtp_quit ev = None \<and> smtp_starttls ev = None \<and>
    smtp_login ev = Some e \<longrightarrow>
      snd (send_email_html ev w1 subject html) = Inl e) \<and>
   (smtp_connect ev = None \<and> smtp_quit ev = None \<and> smtp_starttls ev = None \<and>
    smtp_login ev = None \<and> smtp_sendmail ev (build_message ev subject html) = Some e \<longrightarrow>
      snd (send_email_html ev w1 subject html) = Inl e) \<and>
   (snd (send_email_html ev w1 subject html) = Inr () \<longleftrightarrow>
      smtp_connect ev = None \<and> smtp_starttls ev = None \<and> smtp_login ev = None \<and>
      smtp_sendmail ev (build_message ev subject html) = None \<and> smtp_quit ev = None)"
proof -
  obtain wq aggregated where rq: "run_queries ev w0 = (wq, aggregated)"
    by (cases "run_queries ev w0")
  let ?html = "format_email_html ev (deduplicate aggregated)"
  obtain w2 r where se: "send_email_html ev wq (email_subject ev) ?html = (w2, r)"
    by (cases "send_email_html ev wq (email_subject ev) ?html")
  let ?w = "w2\<lparr>stdout := stdout w2 @
        [case r of Inl e \<Rightarrow> Failed_to_send e
         | Inr u \<Rightarrow> Email_sent (length (deduplicate aggregated))]\<rparr>"
  have m: "main ev w0 = Inr ?w"
    using rq se by (rule main_result)
  have sr: "send_result ev w0 = r"
    using rq se by (simp add: send_result_def)
  have dq: "delivered wq = delivered w0"
    using run_queries_keeps [of ev w0] rq by simp
  have so: "stdout w2 = stdout wq"
    using send_email_html_world [OF se] by simp
  have msg: "message_for ev (snd (run_queries ev w0)) = build_message ev (email_subject ev) ?html"
    using rq by (simp add: message_for_def)
  have dl: "delivered ?w =
        (if smtp_connect ev = None \<and> smtp_starttls ev = None \<and> smtp_login ev = None \<and>
            smtp_sendmail ev (message_for ev (snd (run_queries ev w0))) = None
         then delivered w0 @ [message_for ev (snd (run_queries ev w0))] else delivered w0)"
    using send_email_html_delivered [of ev wq "email_subject ev" ?html] se dq
    unfolding msg by simp
  have fail: "\<forall>e. send_result ev w0 = Inl e \<longrightarrow>
      stdout ?w = stdout (fst (run_queries ev w0)) @ [Failed_to_send e]"
    using so rq by (simp add: sr)
  have res: "r = snd (send_email_html ev wq (email_subject ev) ?html)"
    using se by simp
  have ok: "send_result ev w0 = Inr () \<longrightarrow>
      stdout ?w = stdout (fst (run_queries ev w0)) @
        [Email_sent (length (deduplicate (snd (run_queries ev w0))))] \<and>
      delivered ?w = delivered w0 @ [message_for ev (snd (run_queries ev w0))]"
  proof
    assume "send_result ev w0 = Inr ()"
    then have r: "r = Inr ()" by (simp add: sr)
    with res have "smtp_connect ev = None \<and> smtp_starttls ev = None \<and> smtp_login ev = None \<and>
        smtp_sendmail ev (build_message ev (email_subject ev) ?html) = None"
      by (simp add: send_email_html_result split: option.splits)
    with dl msg have "delivered ?w = delivered w0 @ [message_for ev (snd (run_queries ev w0))]"
      by simp
    moreover have "stdout ?w = stdout (fst (run_queries ev w0)) @
        [Email_sent (length (deduplicate (snd (run_queries ev w0))))]"
      using so rq r by simp
    ultimately show "stdout ?w = stdout (fst (run_queries ev w0)) @
        [Email_sent (length (deduplicate (snd (run_queries ev w0))))] \<and>
      delivered ?w = delivered w0 @ [message_for ev (snd (run_queries ev w0))]"
      by blast
  qed
  from m fail ok dl have main_part: "\<exists>w. main ev w0 = Inr w \<and>
      (\<forall>e. send_result ev w0 = Inl e \<longrightarrow>
         stdout w = stdout (fst (run_queries ev w0)) @ [Failed_to_send e]) \<and>
      (send_result ev w0 = Inr () \<longrightarrow>
         stdout w = stdout (fst (run_queries ev w0)) @
           [Email_sent (length (deduplicate (snd (run_queries ev w0))))] \<and>
         delivered w = delivered w0 @ [message_for ev (snd (run_queries ev w0))]) \<and>
      delivered w =
        (if smtp_connect ev = None \<and> smtp_starttls ev = None \<and> smtp_login ev = None \<and>
            smtp_sendmail ev (message_for ev (snd (run_queries ev w0))) = None
         then delivered w0 @ [message_for ev (snd (run_queries ev w0))] else delivered w0)"
    by blast
  have steps:
    "(smtp_connect ev = Some e \<longrightarrow> snd (send_email_html ev w1 subject html) = Inl e) \<and>
     (smtp_connect ev = None \<and> smtp_quit ev = Some e \<longrightarrow>
        snd (send_email_html ev w1 subject html) = Inl e) \<and>
     (smtp_connect ev = None \<and> smtp_quit ev = None \<and> smtp_starttls ev = Some e \<longrightarrow>
        snd (send_email_html ev w1 subject html) = Inl e) \<and>
     (smtp_connect ev = None \<and> smtp_quit ev = None \<and> smtp_starttls ev = None \<and>
      smtp_login ev = Some e \<longrightarrow>
        snd (send_email_html ev w1 subject html) = Inl e) \<and>
     (smtp_connect ev = None \<and> smtp_quit ev = None \<and> smtp_starttls ev = None \<and>
      smtp_login ev = None \<and> smtp_sendmail ev (build_message ev subject html) = Some e \<longrightarrow>
        snd (send_email_html ev w1 subject html) = Inl e) \<and>
     (snd (send_email_html ev w1 subject html) = Inr () \<longleftrightarrow>
        smtp_connect ev = None \<and> smtp_starttls ev = None \<and> smtp_login ev = None \<and>
        smtp_sendmail ev (build_message ev subject html) = None \<and> smtp_quit ev = None)"
    by (simp add: send_email_html_result split: option.splits)
  from main_part steps show ?thesis by blast
qed

theorem send_failure_is_caught_witness:
  "smtp_connect failing_smtp_env = None \<and> smtp_quit failing_smtp_env = None \<and>
   smtp_starttls failing_smtp_env = None \<and>
   smtp_login failing_smtp_env = Some (Exception ''auth'') \<and>
   send_result failing_smtp_env empty_world = Inl (Exception ''auth'') \<and>
   (\<exists>w. main failing_smtp_env empty_world = Inr w \<and>
      last (stdout w) = Failed_to_send (Exception ''auth'') \<and> delivered w = []) \<and>
   smtp_connect failing_quit_env = None \<and>
   smtp_quit failing_quit_env = Some (Exception ''quit'') \<and>
   send_result failing_quit_env empty_world = Inl (Exception ''quit'') \<and>
   (\<exists>w. main failing_quit_env empty_world = Inr w \<and>
      last (stdout w) = Failed_to_send (Exception ''quit'') \<and>
      delivered w = [message_for failing_quit_env (snd (run_queries failing_quit_env empty_world))]) \<and>
   send_result example_env empty_world = Inr () \<and>
   length (deduplicate (snd (run_queries example_env empty_world))) = 2 \<and>
   (\<exists>w. main example_env empty_world = Inr w \<and>
      last (stdout w) = Email_sent 2 \<and>
      delivered w = [message_for example_env (snd (run_queries example_env empty_world))])"
proof -
  have c: "smtp_connect failing_smtp_env = None" and q: "smtp_quit failing_smtp_env = None"
    and t: "smtp_starttls failing_smtp_env = None"
    and l: "smtp_login failing_smtp_env = Some (Exception ''auth'')"
    by (simp_all add: failing_smtp_env_def example_env_def)
  have a: "send_result failing_smtp_env empty_world = Inl (Exception ''auth'')"
    unfolding send_result_def
    using send_failure_is_caught [of failing_smtp_env empty_world "Exception ''auth''"
        "fst (run_queries failing_smtp_env empty_world)"] c q t l
    by blast
  from send_failure_is_caught [of failing_smtp_env empty_world "Exception ''auth''"
      empty_world "[]" "[]", THEN conjunct1] a l
  have f: "\<exists>w. main failing_smtp_env empty_world = Inr w \<and>
      last (stdout w) = Failed_to_send (Exception ''auth'') \<and> delivered w = []"
    by (auto simp: empty_world_def)
  have c': "smtp_connect failing_quit_env = None"
    and q': "smtp_quit failing_quit_env = Some (Exception ''quit'')"
    and rest: "smtp_starttls failing_quit_env = None" "smtp_login failing_quit_env = None"
      "smtp_sendmail failing_quit_env = (\<lambda>m. None)"
    by (simp_all add: failing_quit_env_def example_env_def)
  have a': "send_result failing_quit_env empty_world = Inl (Exception ''quit'')"
    unfolding send_result_def
    using send_failure_is_caught [of failing_quit_env empty_world "Exception ''quit''"
        "fst (run_queries failing_quit_env empty_world)"] c' q'
    by blast
  from send_failure_is_caught [of failing_quit_env empty_world "Exception ''quit''"
      empty_world "[]" "[]", THEN conjunct1] a' c' rest
  have g: "\<exists>w. main failing_quit_env empty_world = Inr w \<and>
      last (stdout w) = Failed_to_send (Exception ''quit'') \<and>
      delivered w = [message_for failing_quit_env (snd (run_queries failing_quit_env empty_world))]"
    by (auto simp: empty_world_def)
  have b: "send_result example_env empty_world = Inr ()"
    by (simp add: send_result_def send_email_html_result example_env_def)
  have n: "length (deduplicate (snd (run_queries example_env empty_world))) = 2"
    by code_simp
  from send_failure_is_caught [of example_env empty_world "Exception ''none''"
      empty_world "[]" "[]", THEN conjunct1] b n
  have s: "\<exists>w. main example_env empty_world = Inr w \<and>
      last (stdout w) = Email_sent 2 \<and>
      delivered w = [message_for example_env (snd (run_queries example_env empty_world))]"
    by (auto simp: empty_world_def)
  from c q t l a f c' q' a' g b n s show ?thesis by blast
qed

end
